theory Spec2Isabelle
  imports Complex_Main
begin

section \<open>Data model (types.ts)\<close>

text \<open>
  JavaScript numbers are modelled as real numbers: rounding, infinities and the sign of
  zero are left out. The one special value the source tests for explicitly, \<open>NaN\<close>
  (the result of \<open>parseFloat\<close> on text that is not a number), is kept where it can
  arise: in the values parsed by the quote adapter.
\<close>

datatype AssetType = STOCK | FUND

datatype number = NaN | Num real

text \<open>\<open>FundData\<close>: the record the fund quote source passes to its callback.\<close>

record FundData =
  fundcode :: string
  name :: string
  dwjz :: string
  jzrq :: string
  gsz :: string
  gszzl :: string
  gztime :: string

text \<open>
  \<open>Partial<Holding>\<close> as the quote adapters build it: only these four fields are ever
  set, and the synchronizer reads each of them as possibly absent (\<open>None\<close> is
  \<open>undefined\<close>).
\<close>

record PartialHolding =
  name :: "string option"
  currentPrice :: "number option"
  yesterdayPrice :: "number option"
  priceDate :: "string option"

record Holding =
  id_h :: string
  name :: string
  code :: string
  type :: AssetType
  buyDate :: string
  buyPrice :: real
  quantity :: real
  currentPrice :: real
  yesterdayPrice :: "real option"
  priceDate :: "string option"

record ProfitSharingResult =
  sharingAmount :: real
  guaranteeAmount :: real

section \<open>Position merge (App.tsx, handleAddHoldings)\<close>

text \<open>\<open>Array.prototype.findIndex\<close>; \<open>None\<close> is the source's \<open>-1\<close>.\<close>

fun findIndex :: "('a \<Rightarrow> bool) \<Rightarrow> 'a list \<Rightarrow> nat option" where
  "findIndex p [] = None"
| "findIndex p (x # xs) = (if p x then Some 0 else map_option Suc (findIndex p xs))"

text \<open>The predicate handed to \<open>findIndex\<close>: \<open>h.code === incoming.code && h.type === incoming.type\<close>.\<close>

definition sameAsset :: "Holding \<Rightarrow> Holding \<Rightarrow> bool" where
  "sameAsset incoming h \<longleftrightarrow> code h = code incoming \<and> type h = type incoming"

text \<open>
  The body of \<open>newHoldings.forEach\<close>: one incoming entry against the running pair
  \<open>(updatedList, affectedIds)\<close>.
\<close>

definition mergeStep ::
  "Holding list \<times> string list \<Rightarrow> Holding \<Rightarrow> Holding list \<times> string list" where
  "mergeStep acc incoming =
     (case acc of (updatedList, affectedIds) \<Rightarrow>
        (case findIndex (sameAsset incoming) updatedList of
           Some existingIndex \<Rightarrow>
             (let existing = updatedList ! existingIndex;
                  totalOldCost = buyPrice existing * quantity existing;
                  totalNewCost = buyPrice incoming * quantity incoming;
                  newTotalQty = quantity existing + quantity incoming;
                  newAvgPrice = (if newTotalQty > 0
                                 then (totalOldCost + totalNewCost) / newTotalQty else 0)
              in (updatedList[existingIndex :=
                    existing\<lparr>quantity := newTotalQty, buyPrice := newAvgPrice\<rparr>],
                  affectedIds @ [id_h existing]))
         | None \<Rightarrow> (updatedList @ [incoming], affectedIds @ [id_h incoming])))"

text \<open>
  \<open>handleAddHoldings\<close> up to the call of \<open>persistHoldings\<close>: the list that becomes the
  new state, and the ids whose prices are fetched afterwards.
\<close>

definition handleAddHoldings ::
  "Holding list \<Rightarrow> Holding list \<Rightarrow> Holding list \<times> string list" where
  "handleAddHoldings holdings newHoldings = foldl mergeStep (holdings, []) newHoldings"

section \<open>Quote adapter for funds (marketDataService.ts, fetchFundData)\<close>

definition isNaN :: "number \<Rightarrow> bool" where
  "isNaN x \<longleftrightarrow> (case x of NaN \<Rightarrow> True | Num _ \<Rightarrow> False)"

text \<open>\<open>x > 0\<close> on a JavaScript number: false for \<open>NaN\<close>.\<close>

definition gt0 :: "number \<Rightarrow> bool" where
  "gt0 x \<longleftrightarrow> (case x of NaN \<Rightarrow> False | Num r \<Rightarrow> r > 0)"

text \<open>
  The callback \<open>jsonpgz\<close> that \<open>fetchFundData\<close> installs. \<open>parseFloat\<close> is the
  language's own function and is taken as a parameter. The result is the value the
  promise is resolved with; \<open>None\<close> when the record is for another fund code, in which
  case this callback does not resolve the promise.
\<close>

definition jsonpgz :: "(string \<Rightarrow> number) \<Rightarrow> string \<Rightarrow> FundData \<Rightarrow> PartialHolding option" where
  "jsonpgz parseFloat code' data =
     (if fundcode data = code' then
        (let est = parseFloat (gsz data);
             nav = parseFloat (dwjz data);
             isEstimateValid = (\<not> isNaN est \<and> gt0 est);
             currentPrice' = (if isEstimateValid then est else nav);
             yesterdayPrice' = nav;
             priceDate' = (if isEstimateValid then gztime data else jzrq data)
         in Some \<lparr>PartialHolding.name = Some (FundData.name data),
                   PartialHolding.currentPrice =
                     Some (if isNaN currentPrice' then Num 0 else currentPrice'),
                   PartialHolding.yesterdayPrice =
                     Some (if isNaN yesterdayPrice' then Num 0 else yesterdayPrice'),
                   PartialHolding.priceDate = Some priceDate'\<rparr>)
      else None)"

text \<open>
  What awaiting a quote adapter yields: the promise resolves with data or with \<open>null\<close>,
  rejects, or never settles.
\<close>

datatype outcome = Resolved "PartialHolding option" | Rejected | Pending

text \<open>What loading the fund source's script does: it fails, or it runs and calls \<open>jsonpgz\<close>.\<close>

datatype fundScript = LoadFailed | Calls FundData

definition fetchFundData :: "(string \<Rightarrow> number) \<Rightarrow> fundScript \<Rightarrow> string \<Rightarrow> outcome" where
  "fetchFundData parseFloat script code' =
     (case script of
        LoadFailed \<Rightarrow> Resolved None
      | Calls data \<Rightarrow>
          (case jsonpgz parseFloat code' data of
             Some r \<Rightarrow> Resolved (Some r)
           | None \<Rightarrow> Pending))"

section \<open>Price synchronizer (marketDataService.ts, refreshMarketPrices)\<close>

text \<open>The left operand of \<open>||\<close> when it is truthy: a number other than 0 and \<open>NaN\<close>, a non-empty string.\<close>

fun truthyNumber :: "number option \<Rightarrow> real option" where
  "truthyNumber (Some (Num r)) = (if r = 0 then None else Some r)"
| "truthyNumber (Some NaN) = None"
| "truthyNumber None = None"

fun truthyString :: "string option \<Rightarrow> string option" where
  "truthyString (Some s) = (if s = [] then None else Some s)"
| "truthyString None = None"

text \<open>The object literal assigned to \<open>updatedHoldings[i]\<close> when the adapter returned data.\<close>

definition mergeBack :: "Holding \<Rightarrow> PartialHolding \<Rightarrow> Holding" where
  "mergeBack h data =
     h\<lparr>name := (case truthyString (PartialHolding.name data) of
                  Some n \<Rightarrow> n | None \<Rightarrow> name h),
       currentPrice := (case truthyNumber (PartialHolding.currentPrice data) of
                          Some c \<Rightarrow> c | None \<Rightarrow> currentPrice h),
       yesterdayPrice := Some (case truthyNumber (PartialHolding.yesterdayPrice data) of
                                 Some y \<Rightarrow> y | None \<Rightarrow> currentPrice h),
       priceDate := (case truthyString (PartialHolding.priceDate data) of
                       Some d \<Rightarrow> Some d | None \<Rightarrow> priceDate h)\<rparr>"

text \<open>
  The two adapters are parameters of the synchronizer: the outcome of the call made in
  iteration \<open>i\<close> for a code. \<open>fetchData\<close> is the choice between them by \<open>h.type\<close>.
\<close>

definition fetchData ::
  "(nat \<Rightarrow> string \<Rightarrow> outcome) \<Rightarrow> (nat \<Rightarrow> string \<Rightarrow> outcome) \<Rightarrow> nat \<Rightarrow> Holding \<Rightarrow> outcome" where
  "fetchData fetchFund fetchStock i h =
     (if type h = FUND then fetchFund i (code h) else fetchStock i (code h))"

text \<open>
  The \<open>for\<close> loop over \<open>updatedHoldings\<close>. A rejected promise is caught and the loop goes
  on; the loop returns \<open>None\<close> when an awaited promise never settles.
\<close>

function refreshLoop ::
  "(nat \<Rightarrow> string \<Rightarrow> outcome) \<Rightarrow> (nat \<Rightarrow> string \<Rightarrow> outcome) \<Rightarrow> nat \<Rightarrow> Holding list
     \<Rightarrow> Holding list option" where
  "refreshLoop fetchFund fetchStock i updatedHoldings =
     (if i < length updatedHoldings then
        (let h = updatedHoldings ! i in
           (case fetchData fetchFund fetchStock i h of
              Resolved (Some data) \<Rightarrow>
                refreshLoop fetchFund fetchStock (Suc i) (updatedHoldings[i := mergeBack h data])
            | Resolved None \<Rightarrow> refreshLoop fetchFund fetchStock (Suc i) updatedHoldings
            | Rejected \<Rightarrow> refreshLoop fetchFund fetchStock (Suc i) updatedHoldings
            | Pending \<Rightarrow> None))
      else Some updatedHoldings)"
  by pat_completeness auto
termination
  by (relation "measure (\<lambda>(ff, fs, i, hs). length hs - i)") auto

definition refreshMarketPrices ::
  "(nat \<Rightarrow> string \<Rightarrow> outcome) \<Rightarrow> (nat \<Rightarrow> string \<Rightarrow> outcome) \<Rightarrow> Holding list
     \<Rightarrow> Holding list option" where
  "refreshMarketPrices fetchFund fetchStock holdings = refreshLoop fetchFund fetchStock 0 holdings"

text \<open>One holding's term of \<open>totalDayProfitLoss\<close> in the summary of App.tsx.\<close>

definition dayPL :: "Holding \<Rightarrow> real" where
  "dayPL h = (case yesterdayPrice h of
                Some y \<Rightarrow> (if y = 0 then 0 else (currentPrice h - y) * quantity h)
              | None \<Rightarrow> 0)"

section \<open>Profit sharing (ProfitSharing.tsx, calculation)\<close>

definition calculation :: "real \<Rightarrow> real \<Rightarrow> ProfitSharingResult" where
  "calculation totalCost totalProfitLoss =
     (if totalCost = 0 then \<lparr>sharingAmount = 0, guaranteeAmount = 0\<rparr>
      else if totalProfitLoss < 0
      then \<lparr>sharingAmount = 0, guaranteeAmount = \<bar>totalProfitLoss\<bar>\<rparr>
      else
        (let profitRate = totalProfitLoss / totalCost;
             thresholdLow = 0.03;
             thresholdHigh = 0.05;
             profitAt3Percent = totalCost * thresholdLow;
             profitAt5Percent = totalCost * thresholdHigh
         in if profitRate \<le> thresholdLow
            then \<lparr>sharingAmount = 0, guaranteeAmount = 0\<rparr>
            else if profitRate > thresholdLow \<and> profitRate \<le> thresholdHigh
            then \<lparr>sharingAmount = (totalProfitLoss - profitAt3Percent) * 0.20,
                  guaranteeAmount = 0\<rparr>
            else
              (let part1 = (profitAt5Percent - profitAt3Percent) * 0.20;
                   part2 = (totalProfitLoss - profitAt5Percent) * 0.50
               in \<lparr>sharingAmount = part1 + part2, guaranteeAmount = 0\<rparr>)))"

section \<open>Predicates used in the statements\<close>

text \<open>The identity key of a holding.\<close>

definition holdingKey :: "Holding \<Rightarrow> string \<times> AssetType" where
  "holdingKey h = (code h, type h)"

text \<open>Two holdings that agree on every field other than \<open>quantity\<close> and \<open>buyPrice\<close>.\<close>

definition sameButCost :: "Holding \<Rightarrow> Holding \<Rightarrow> bool" where
  "sameButCost h h' \<longleftrightarrow>
     id_h h' = id_h h \<and> name h' = name h \<and> code h' = code h \<and> type h' = type h
     \<and> buyDate h' = buyDate h \<and> currentPrice h' = currentPrice h
     \<and> yesterdayPrice h' = yesterdayPrice h \<and> priceDate h' = priceDate h"

text \<open>What iteration \<open>i\<close> leaves at position \<open>i\<close>.\<close>

definition refreshed ::
  "(nat \<Rightarrow> string \<Rightarrow> outcome) \<Rightarrow> (nat \<Rightarrow> string \<Rightarrow> outcome) \<Rightarrow> nat \<Rightarrow> Holding \<Rightarrow> Holding" where
  "refreshed fetchFund fetchStock i h =
     (case fetchData fetchFund fetchStock i h of
        Resolved (Some data) \<Rightarrow> mergeBack h data
      | _ \<Rightarrow> h)"

section \<open>Sample data\<close>

definition sampleExisting :: Holding where
  "sampleExisting = \<lparr>id_h = ''h1'', name = ''Bank'', code = ''600000'', type = STOCK,
     buyDate = ''2024-01-02'', buyPrice = 10, quantity = 100, currentPrice = 11,
     yesterdayPrice = None, priceDate = None\<rparr>"

definition sampleIncoming :: Holding where
  "sampleIncoming = \<lparr>id_h = ''h2'', name = ''Bank'', code = ''600000'', type = STOCK,
     buyDate = ''2024-02-02'', buyPrice = 12, quantity = 50, currentPrice = 12,
     yesterdayPrice = None, priceDate = None\<rparr>"

definition sampleIncoming2 :: Holding where
  "sampleIncoming2 = \<lparr>id_h = ''h3'', name = ''Bank'', code = ''600000'', type = STOCK,
     buyDate = ''2024-03-04'', buyPrice = 14, quantity = 30, currentPrice = 14,
     yesterdayPrice = None, priceDate = None\<rparr>"

definition sampleDuplicate :: Holding where
  "sampleDuplicate = \<lparr>id_h = ''h4'', name = ''Bank (edited)'', code = ''600000'', type = STOCK,
     buyDate = ''2023-12-01'', buyPrice = 9, quantity = 40, currentPrice = 11,
     yesterdayPrice = None, priceDate = None\<rparr>"

definition sampleFund :: Holding where
  "sampleFund = \<lparr>id_h = ''h5'', name = ''Growth Fund'', code = ''000001'', type = FUND,
     buyDate = ''2024-01-15'', buyPrice = 2, quantity = 1000, currentPrice = 3,
     yesterdayPrice = None, priceDate = None\<rparr>"

text \<open>\<open>parseFloat\<close> on the strings that occur in the sample records.\<close>

definition sampleParseFloat :: "string \<Rightarrow> number" where
  "sampleParseFloat s =
     (if s = ''5'' then Num 5 else if s = ''4'' then Num 4
      else if s = ''-1'' then Num (- 1) else NaN)"

text \<open>A fund record with an estimate and an empty net value.\<close>

definition sampleEstimateOnly :: FundData where
  "sampleEstimateOnly = \<lparr>fundcode = ''000001'', name = ''Growth Fund'', dwjz = [],
     jzrq = ''2024-05-09'', gsz = ''5'', gszzl = ''0.5'', gztime = ''2024-05-10 15:00''\<rparr>"

text \<open>A fund record with no estimate and a negative net value.\<close>

definition sampleNegativeNav :: FundData where
  "sampleNegativeNav = \<lparr>fundcode = ''000001'', name = ''Growth Fund'', dwjz = ''-1'',
     jzrq = ''2024-05-09'', gsz = [], gszzl = [], gztime = []\<rparr>"

text \<open>A fund record with an estimate and a net value.\<close>

definition sampleQuote :: FundData where
  "sampleQuote = \<lparr>fundcode = ''000001'', name = ''Growth Fund'', dwjz = ''4'',
     jzrq = ''2024-05-09'', gsz = ''5'', gszzl = ''25'', gztime = ''2024-05-10 15:00''\<rparr>"

section \<open>Position merge: weighted average\<close>

lemma findIndex_SomeD:
  "findIndex p xs = Some i \<Longrightarrow> i < length xs \<and> p (xs ! i) \<and> (\<forall>j<i. \<not> p (xs ! j))"
proof (induction xs arbitrary: i)
  case Nil
  then show ?case by simp
next
  case (Cons x xs)
  show ?case
  proof (cases "p x")
    case True
    with Cons.prems show ?thesis by simp
  next
    case False
    with Cons.prems obtain k where k: "findIndex p xs = Some k" "i = Suc k"
      by auto
    from Cons.IH [OF k(1)] False k(2) show ?thesis
      by (auto simp: less_Suc_eq_0_disj)
  qed
qed

lemma findIndex_None_iff: "findIndex p xs = None \<longleftrightarrow> (\<forall>x\<in>set xs. \<not> p x)"
  by (induction xs) auto

lemma mergeStep_Some:
  "findIndex (sameAsset incoming) updatedList = Some i \<Longrightarrow>
   mergeStep (updatedList, affectedIds) incoming =
     (updatedList[i := (updatedList ! i)
        \<lparr>quantity := quantity (updatedList ! i) + quantity incoming,
         buyPrice := (if quantity (updatedList ! i) + quantity incoming > 0
                      then (buyPrice (updatedList ! i) * quantity (updatedList ! i)
                            + buyPrice incoming * quantity incoming)
                           / (quantity (updatedList ! i) + quantity incoming)
                      else 0)\<rparr>],
      affectedIds @ [id_h (updatedList ! i)])"
  by (simp add: mergeStep_def Let_def)

lemma mergeStep_None:
  "findIndex (sameAsset incoming) updatedList = None \<Longrightarrow>
   mergeStep (updatedList, affectedIds) incoming =
     (updatedList @ [incoming], affectedIds @ [id_h incoming])"
  by (simp add: mergeStep_def)

lemma handleAddHoldings_snoc:
  "handleAddHoldings holdings (pre @ [incoming]) =
     mergeStep (handleAddHoldings holdings pre) incoming"
  by (simp add: handleAddHoldings_def)

text \<open>
  C1. When an incoming entry is processed (at any point of a batch) and matches the
  existing holding at index \<open>i\<close>, with prices \<open>p1\<close>, \<open>p2\<close> and quantities \<open>q1\<close>, \<open>q2\<close>,
  the holding at \<open>i\<close> afterwards has quantity \<open>q1 + q2\<close>, price
  \<open>(p1 * q1 + p2 * q2) / (q1 + q2)\<close> when \<open>q1 + q2 > 0\<close>, and price 0 when \<open>q1 + q2 = 0\<close>.
  No sign condition on the four numbers is needed.
\<close>

theorem merge_weighted_average:
  assumes "handleAddHoldings holdings pre = (updatedList, affectedIds)"
    and "findIndex (sameAsset incoming) updatedList = Some i"
  shows "let p1 = buyPrice (updatedList ! i); q1 = quantity (updatedList ! i);
             p2 = buyPrice incoming; q2 = quantity incoming;
             r = fst (handleAddHoldings holdings (pre @ [incoming])) ! i
         in quantity r = q1 + q2
            \<and> (q1 + q2 > 0 \<longrightarrow> buyPrice r = (p1 * q1 + p2 * q2) / (q1 + q2))
            \<and> (q1 + q2 = 0 \<longrightarrow> buyPrice r = 0)"
  using findIndex_SomeD [OF assms(2)]
  by (simp add: handleAddHoldings_snoc assms(1) mergeStep_Some [OF assms(2)] Let_def)

theorem merge_weighted_average_witness:
  "handleAddHoldings [sampleExisting] [] = ([sampleExisting], [])
   \<and> findIndex (sameAsset sampleIncoming) [sampleExisting] = Some 0
   \<and> quantity (fst (handleAddHoldings [sampleExisting] ([] @ [sampleIncoming])) ! 0) = 150
   \<and> buyPrice (fst (handleAddHoldings [sampleExisting] ([] @ [sampleIncoming])) ! 0) = 32 / 3"
proof -
  have a: "handleAddHoldings [sampleExisting] [] = ([sampleExisting], [])"
    by (simp add: handleAddHoldings_def)
  have b: "findIndex (sameAsset sampleIncoming) [sampleExisting] = Some 0"
    by (simp add: sameAsset_def sampleExisting_def sampleIncoming_def)
  from merge_weighted_average [OF a b] a b show ?thesis
    by (simp add: Let_def sampleExisting_def sampleIncoming_def)
qed

section \<open>Position merge: keys, frame, batches\<close>

lemma sameAsset_key: "sameAsset a h \<longleftrightarrow> holdingKey h = holdingKey a"
  by (auto simp: sameAsset_def holdingKey_def)

lemma mergeStep_keys_Some:
  assumes "findIndex (sameAsset b) ul = Some i"
  shows "map holdingKey (fst (mergeStep (ul, ids) b)) = map holdingKey ul"
proof -
  have "i < length ul" using findIndex_SomeD [OF assms] by simp
  then show ?thesis
    by (simp add: mergeStep_Some [OF assms] map_update holdingKey_def list_update_same_conv)
qed

lemma mergeStep_distinct:
  assumes "distinct (map holdingKey ul)"
  shows "distinct (map holdingKey (fst (mergeStep (ul, ids) b)))"
proof (cases "findIndex (sameAsset b) ul")
  case None
  then have "holdingKey b \<notin> holdingKey ` set ul"
    by (auto simp: findIndex_None_iff sameAsset_key)
  with assms None show ?thesis
    by (simp add: mergeStep_None)
next
  case (Some i)
  with assms show ?thesis
    by (simp add: mergeStep_keys_Some)
qed

lemma foldl_mergeStep_distinct:
  "distinct (map holdingKey (fst acc)) \<Longrightarrow>
   distinct (map holdingKey (fst (foldl mergeStep acc bs)))"
proof (induction bs arbitrary: acc)
  case Nil
  then show ?case by simp
next
  case (Cons b bs)
  obtain ul ids where acc: "acc = (ul, ids)" by (cases acc)
  from Cons.prems acc have "distinct (map holdingKey (fst (mergeStep acc b)))"
    using mergeStep_distinct [of ul ids b] by simp
  from Cons.IH [OF this] show ?case by simp
qed

text \<open>
  C5. If the pairs \<open>(code, type)\<close> of the holdings are pairwise distinct, they are pairwise
  distinct again in the list that \<open>handleAddHoldings\<close> produces, for every incoming batch.
\<close>

theorem merge_keeps_keys_distinct:
  "distinct (map holdingKey holdings) \<Longrightarrow>
   distinct (map holdingKey (fst (handleAddHoldings holdings newHoldings)))"
  unfolding handleAddHoldings_def by (rule foldl_mergeStep_distinct) simp


theorem merge_keeps_keys_distinct_witness:
  "distinct (map holdingKey [sampleExisting, sampleFund])
   \<and> distinct (map holdingKey
        (fst (handleAddHoldings [sampleExisting, sampleFund] [sampleIncoming, sampleIncoming2])))"
proof -
  have d: "distinct (map holdingKey [sampleExisting, sampleFund])"
    by (simp add: holdingKey_def sampleExisting_def sampleIncoming_def sampleIncoming2_def sampleFund_def)
  from merge_keeps_keys_distinct [OF d] d show ?thesis by simp
qed

lemma mergeStep_length: "length ul \<le> length (fst (mergeStep (ul, ids) b))"
  by (cases "findIndex (sameAsset b) ul") (simp_all add: mergeStep_None mergeStep_Some)

lemma mergeStep_frame:
  assumes "j < length ul"
  shows "sameButCost (ul ! j) (fst (mergeStep (ul, ids) b) ! j)"
proof (cases "findIndex (sameAsset b) ul")
  case None
  with assms show ?thesis
    by (simp add: mergeStep_None nth_append sameButCost_def)
next
  case (Some i)
  with assms show ?thesis
    by (cases "i = j") (simp_all add: mergeStep_Some sameButCost_def)
qed

lemma mergeStep_unmatched:
  assumes "j < length ul" and "\<not> sameAsset b (ul ! j)"
  shows "fst (mergeStep (ul, ids) b) ! j = ul ! j"
proof (cases "findIndex (sameAsset b) ul")
  case None
  with assms show ?thesis
    by (simp add: mergeStep_None nth_append)
next
  case (Some i)
  from findIndex_SomeD [OF Some] assms(2) have "i \<noteq> j" by auto
  with Some show ?thesis
    by (simp add: mergeStep_Some)
qed

lemma sameButCost_trans: "sameButCost a b \<Longrightarrow> sameButCost b c \<Longrightarrow> sameButCost a c"
  by (simp add: sameButCost_def)

lemma foldl_mergeStep_frame:
  "j < length (fst acc) \<Longrightarrow>
   j < length (fst (foldl mergeStep acc bs))
   \<and> sameButCost (fst acc ! j) (fst (foldl mergeStep acc bs) ! j)
   \<and> ((\<forall>b\<in>set bs. \<not> sameAsset b (fst acc ! j)) \<longrightarrow>
        fst (foldl mergeStep acc bs) ! j = fst acc ! j)"
proof (induction bs arbitrary: acc)
  case Nil
  then show ?case by (simp add: sameButCost_def)
next
  case (Cons b bs)
  obtain ul ids where acc: "acc = (ul, ids)" by (cases acc)
  let ?acc' = "mergeStep acc b"
  from Cons.prems acc have j: "j < length ul" by simp
  have len: "j < length (fst ?acc')"
    using j mergeStep_length [of ul ids b] acc by simp
  have fr: "sameButCost (ul ! j) (fst ?acc' ! j)"
    using mergeStep_frame [OF j] acc by simp
  note IH = Cons.IH [OF len]
  have 1: "j < length (fst (foldl mergeStep acc (b # bs)))"
    using IH by simp
  have 2: "sameButCost (fst acc ! j) (fst (foldl mergeStep acc (b # bs)) ! j)"
    using IH fr acc by (auto intro: sameButCost_trans)
  have 3: "fst (foldl mergeStep acc (b # bs)) ! j = fst acc ! j"
    if un: "\<forall>x\<in>set (b # bs). \<not> sameAsset x (fst acc ! j)"
  proof -
    from un acc have "\<not> sameAsset b (ul ! j)" by simp
    from mergeStep_unmatched [OF j this] acc
    have eq: "fst ?acc' ! j = fst acc ! j" by simp
    with un have "\<forall>x\<in>set bs. \<not> sameAsset x (fst ?acc' ! j)" by simp
    with IH eq show ?thesis by simp
  qed
  from 1 2 3 show ?case by blast
qed

text \<open>
  C6. Every holding that exists before the batch is still at its position afterwards with
  the same id, name, code, type, buyDate, currentPrice, yesterdayPrice and priceDate: only
  quantity and buyPrice can differ. A holding that no incoming entry matches on
  \<open>(code, type)\<close> is unchanged altogether.
\<close>

theorem merge_frame:
  assumes "j < length holdings"
  shows "let h = holdings ! j; h' = fst (handleAddHoldings holdings newHoldings) ! j
         in j < length (fst (handleAddHoldings holdings newHoldings))
            \<and> id_h h' = id_h h \<and> name h' = name h \<and> code h' = code h \<and> type h' = type h
            \<and> buyDate h' = buyDate h \<and> currentPrice h' = currentPrice h
            \<and> yesterdayPrice h' = yesterdayPrice h \<and> priceDate h' = priceDate h
            \<and> ((\<forall>incoming\<in>set newHoldings. \<not> sameAsset incoming h) \<longrightarrow> h' = h)"
  using foldl_mergeStep_frame [of j "(holdings, [])" newHoldings] assms
  by (simp add: handleAddHoldings_def sameButCost_def Let_def)


theorem merge_frame_witness:
  "(0::nat) < length [sampleExisting, sampleFund]
   \<and> id_h (fst (handleAddHoldings [sampleExisting, sampleFund] [sampleIncoming]) ! 0) = ''h1''
   \<and> currentPrice (fst (handleAddHoldings [sampleExisting, sampleFund] [sampleIncoming]) ! 0) = 11
   \<and> (1::nat) < length [sampleExisting, sampleFund]
   \<and> \<not> sameAsset sampleIncoming ([sampleExisting, sampleFund] ! 1)
   \<and> fst (handleAddHoldings [sampleExisting, sampleFund] [sampleIncoming]) ! 1 = sampleFund"
proof -
  have l0: "(0::nat) < length [sampleExisting, sampleFund]" by simp
  have l1: "(1::nat) < length [sampleExisting, sampleFund]" by simp
  have un: "\<forall>incoming\<in>set [sampleIncoming]. \<not> sameAsset incoming ([sampleExisting, sampleFund] ! 1)"
    by (simp add: sameAsset_def sampleIncoming_def sampleFund_def)
  from merge_frame [OF l0, of "[sampleIncoming]"] merge_frame [OF l1, of "[sampleIncoming]"] un
  show ?thesis
    by (simp add: Let_def sampleExisting_def)
qed

lemma sameAsset_cong: "sameAsset a b \<Longrightarrow> sameAsset b = sameAsset a"
  by (auto simp: sameAsset_def fun_eq_iff)

lemma findIndex_filter:
  "findIndex p xs = Some i \<Longrightarrow> \<exists>rest. filter p xs = xs ! i # rest
     \<and> (\<forall>y. p y \<longrightarrow> filter p (xs[i := y]) = y # rest)"
proof (induction xs arbitrary: i)
  case Nil
  then show ?case by simp
next
  case (Cons x xs)
  show ?case
  proof (cases "p x")
    case True
    with Cons.prems show ?thesis by simp
  next
    case False
    with Cons.prems obtain k where k: "findIndex p xs = Some k" "i = Suc k"
      by auto
    from Cons.IH [OF k(1)] False k(2) show ?thesis
      by auto
  qed
qed

lemma findIndex_None_filter: "findIndex p xs = None \<Longrightarrow> filter p xs = []"
  by (simp add: findIndex_None_iff filter_empty_conv)

text \<open>The holdings of one asset before and after one step.\<close>

lemma mergeStep_filter_same:
  assumes ab: "sameAsset a b"
  shows "\<exists>r. filter (sameAsset a) (fst (mergeStep (ul, ids) b)) = r # tl (filter (sameAsset a) ul)
          \<and> quantity r = sum_list (map quantity (take 1 (filter (sameAsset a) ul))) + quantity b"
proof (cases "findIndex (sameAsset b) ul")
  case None
  then have "filter (sameAsset a) ul = []"
    using findIndex_None_filter [of "sameAsset b" ul] sameAsset_cong [OF ab] by simp
  with None ab show ?thesis
    by (simp add: mergeStep_None)
next
  case (Some i)
  let ?e = "(ul ! i)\<lparr>quantity := quantity (ul ! i) + quantity b,
     buyPrice := (if quantity (ul ! i) + quantity b > 0
                  then (buyPrice (ul ! i) * quantity (ul ! i) + buyPrice b * quantity b)
                       / (quantity (ul ! i) + quantity b)
                  else 0)\<rparr>"
  from findIndex_SomeD [OF Some] have "sameAsset b (ul ! i)" by simp
  then have pe: "sameAsset b ?e" by (simp add: sameAsset_def)
  from findIndex_filter [OF Some] obtain rest where
    rest: "filter (sameAsset b) ul = ul ! i # rest"
      "filter (sameAsset b) (ul[i := ?e]) = ?e # rest"
    using pe by blast
  show ?thesis
    using rest by (simp add: mergeStep_Some [OF Some] sameAsset_cong [OF ab])
qed

lemma foldl_mergeStep_append:
  "fst (foldl mergeStep acc (xs @ ys)) = fst (foldl mergeStep (fst (foldl mergeStep acc xs), ids) ys)"
proof -
  have indep: "fst (foldl mergeStep (ul, ids1) ys) = fst (foldl mergeStep (ul, ids2) ys)"
    for ul ids1 ids2
  proof (induction ys arbitrary: ul ids1 ids2)
    case Nil
    show ?case by simp
  next
    case (Cons y ys)
    obtain ul' i1 where 1: "mergeStep (ul, ids1) y = (ul', i1)" by (cases "mergeStep (ul, ids1) y")
    then obtain i2 where 2: "mergeStep (ul, ids2) y = (ul', i2)"
      by (cases "findIndex (sameAsset y) ul") (auto simp: mergeStep_None mergeStep_Some)
    show ?case using Cons.IH [of ul' i1 i2] by (simp add: 1 2)
  qed
  obtain ul i where "foldl mergeStep acc xs = (ul, i)" by (cases "foldl mergeStep acc xs")
  then show ?thesis using indep [of ul i ids] by simp
qed

text \<open>
  C4 (amended). The merge is a left fold: a batch gives the list that its two halves give
  when submitted one after the other, whatever the holdings. If the two entries \<open>a\<close> and
  \<open>b\<close> have the same \<open>(code, type)\<close> and at most one holding had that key before, then
  after the batch \<open>[a, b]\<close> exactly one holding has it, with the quantity held before (if
  any) plus the quantities of \<open>a\<close> and \<open>b\<close>.
\<close>

theorem batch_equals_sequential:
  assumes same: "sameAsset a b"
    and once: "length (filter (sameAsset a) holdings) \<le> 1"
  shows "(\<forall>xs ys. fst (handleAddHoldings holdings (xs @ ys))
            = fst (handleAddHoldings (fst (handleAddHoldings holdings xs)) ys))
       \<and> fst (handleAddHoldings holdings [a, b])
            = fst (handleAddHoldings (fst (handleAddHoldings holdings [a])) [b])
       \<and> (\<exists>r. filter (sameAsset a) (fst (handleAddHoldings holdings [a, b])) = [r]
              \<and> quantity r = sum_list (map quantity (filter (sameAsset a) holdings))
                              + quantity a + quantity b)"
proof -
  have seq: "fst (handleAddHoldings holdings (xs @ ys))
            = fst (handleAddHoldings (fst (handleAddHoldings holdings xs)) ys)" for xs ys
    unfolding handleAddHoldings_def by (rule foldl_mergeStep_append)
  have aa: "sameAsset a a" by (simp add: sameAsset_def)
  obtain ul1 ids1 where s1: "mergeStep (holdings, []) a = (ul1, ids1)"
    by (cases "mergeStep (holdings, []) a")
  from mergeStep_filter_same [OF aa, of holdings "[]"] s1 obtain r1 where
    r1: "filter (sameAsset a) ul1 = r1 # tl (filter (sameAsset a) holdings)"
      "quantity r1 = sum_list (map quantity (take 1 (filter (sameAsset a) holdings))) + quantity a"
    by auto
  from once have tl: "tl (filter (sameAsset a) holdings) = []"
    and tk: "take 1 (filter (sameAsset a) holdings) = filter (sameAsset a) holdings"
    by (cases "filter (sameAsset a) holdings"; simp)+
  from mergeStep_filter_same [OF same, of ul1 ids1] obtain r2 where
    r2: "filter (sameAsset a) (fst (mergeStep (ul1, ids1) b)) = r2 # tl (filter (sameAsset a) ul1)"
      "quantity r2 = sum_list (map quantity (take 1 (filter (sameAsset a) ul1))) + quantity b"
    by auto
  have "filter (sameAsset a) (fst (handleAddHoldings holdings [a, b])) = [r2]"
    using r2(1) r1(1) tl by (simp add: handleAddHoldings_def s1)
  moreover have "quantity r2 = sum_list (map quantity (filter (sameAsset a) holdings))
                              + quantity a + quantity b"
    using r2(2) r1 tk by simp
  ultimately show ?thesis
    using seq seq [of "[a]" "[b]"] by auto
qed

theorem batch_equals_sequential_witness:
  "sameAsset sampleIncoming sampleIncoming2
   \<and> length (filter (sameAsset sampleIncoming) [sampleExisting, sampleFund]) \<le> 1
   \<and> fst (handleAddHoldings [sampleExisting, sampleFund] [sampleIncoming, sampleIncoming2])
       = fst (handleAddHoldings
               (fst (handleAddHoldings [sampleExisting, sampleFund] [sampleIncoming]))
               [sampleIncoming2])
   \<and> (\<exists>r. filter (sameAsset sampleIncoming)
             (fst (handleAddHoldings [sampleExisting, sampleFund] [sampleIncoming, sampleIncoming2]))
            = [r] \<and> quantity r = 180)"
proof -
  have s: "sameAsset sampleIncoming sampleIncoming2"
    by (simp add: sameAsset_def sampleExisting_def sampleIncoming_def sampleIncoming2_def sampleFund_def)
  have o: "length (filter (sameAsset sampleIncoming) [sampleExisting, sampleFund]) \<le> 1"
    by (simp add: sameAsset_def sampleExisting_def sampleIncoming_def sampleIncoming2_def sampleFund_def)
  have q: "sum_list (map quantity (filter (sameAsset sampleIncoming) [sampleExisting, sampleFund]))
            + quantity sampleIncoming + quantity sampleIncoming2 = 180"
    by (simp add: sameAsset_def sampleExisting_def sampleIncoming_def sampleIncoming2_def sampleFund_def)
  note main = batch_equals_sequential [OF s o]
  from main have e: "fst (handleAddHoldings [sampleExisting, sampleFund] [sampleIncoming, sampleIncoming2])
       = fst (handleAddHoldings
               (fst (handleAddHoldings [sampleExisting, sampleFund] [sampleIncoming]))
               [sampleIncoming2])"
    by blast
  from main obtain r where "filter (sameAsset sampleIncoming)
             (fst (handleAddHoldings [sampleExisting, sampleFund] [sampleIncoming, sampleIncoming2]))
            = [r]" and "quantity r = sum_list (map quantity
                 (filter (sameAsset sampleIncoming) [sampleExisting, sampleFund]))
               + quantity sampleIncoming + quantity sampleIncoming2"
    by blast
  with q have "\<exists>r. filter (sameAsset sampleIncoming)
             (fst (handleAddHoldings [sampleExisting, sampleFund] [sampleIncoming, sampleIncoming2]))
            = [r] \<and> quantity r = 180"
    by simp
  with s o e show ?thesis by blast
qed

text \<open>
  C4 as stated, for every holding list, fails where the key is already held twice (an
  edit can put two records on one code): the batch merges into the first of them and
  both remain.
\<close>

theorem batch_duplicate_key_counterexample:
  "length (filter (sameAsset sampleIncoming)
     (fst (handleAddHoldings [sampleExisting, sampleDuplicate] [sampleIncoming, sampleIncoming2])))
   = 2"
  by (simp add: handleAddHoldings_def mergeStep_def sameAsset_def Let_def sampleExisting_def sampleIncoming_def sampleIncoming2_def sampleDuplicate_def)

section \<open>Price synchronizer\<close>

declare refreshLoop.simps [simp del]

lemma refreshLoop_done: "\<not> i < length xs \<Longrightarrow> refreshLoop ff fs i xs = Some xs"
  by (simp add: refreshLoop.simps [of ff fs i xs])

lemma refreshLoop_step:
  "i < length xs \<Longrightarrow>
   refreshLoop ff fs i xs =
     (if fetchData ff fs i (xs ! i) = Pending then None
      else refreshLoop ff fs (Suc i) (xs[i := refreshed ff fs i (xs ! i)]))"
  by (simp add: refreshLoop.simps [of ff fs i xs] refreshed_def
      split: outcome.splits option.splits)

lemma refreshLoop_result:
  "refreshLoop ff fs i xs = Some ys \<Longrightarrow>
   length ys = length xs
   \<and> (\<forall>j<length xs. ys ! j = (if j < i then xs ! j else refreshed ff fs j (xs ! j)))"
proof (induction "length xs - i" arbitrary: i xs)
  case 0
  then show ?case by (simp add: refreshLoop_done)
next
  case (Suc n)
  then have i: "i < length xs" by simp
  let ?xs' = "xs[i := refreshed ff fs i (xs ! i)]"
  from Suc.prems i have step: "refreshLoop ff fs (Suc i) ?xs' = Some ys"
    by (simp add: refreshLoop_step split: if_splits)
  from Suc.hyps(2) have "n = length ?xs' - Suc i" by simp
  from Suc.hyps(1) [OF this step]
  have IH: "length ys = length xs"
    "\<And>j. j < length xs \<Longrightarrow>
       ys ! j = (if j < Suc i then ?xs' ! j else refreshed ff fs j (?xs' ! j))"
    by simp_all
  show ?case
  proof (intro conjI allI impI)
    show "length ys = length xs" by (rule IH(1))
  next
    fix j assume j: "j < length xs"
    show "ys ! j = (if j < i then xs ! j else refreshed ff fs j (xs ! j))"
      using IH(2) [OF j] i by (cases "j = i") (auto simp: less_Suc_eq)
  qed
qed

lemma refreshLoop_returns:
  "(\<forall>j. i \<le> j \<and> j < length xs \<longrightarrow> fetchData ff fs j (xs ! j) \<noteq> Pending) \<Longrightarrow>
   \<exists>ys. refreshLoop ff fs i xs = Some ys"
proof (induction "length xs - i" arbitrary: i xs)
  case 0
  then show ?case by (simp add: refreshLoop_done)
next
  case (Suc n)
  then have i: "i < length xs" by simp
  let ?xs' = "xs[i := refreshed ff fs i (xs ! i)]"
  from Suc.hyps(2) have n: "n = length ?xs' - Suc i" by simp
  have "\<forall>j. Suc i \<le> j \<and> j < length ?xs' \<longrightarrow> fetchData ff fs j (?xs' ! j) \<noteq> Pending"
    using Suc.prems by simp
  from Suc.hyps(1) [OF n this] Suc.prems i show ?case
    by (simp add: refreshLoop_step)
qed

lemma refreshLoop_pending:
  "i \<le> j \<Longrightarrow> j < length xs \<Longrightarrow> fetchData ff fs j (xs ! j) = Pending \<Longrightarrow>
   refreshLoop ff fs i xs = None"
proof (induction "length xs - i" arbitrary: i xs)
  case 0
  then show ?case by simp
next
  case (Suc n)
  then have i: "i < length xs" by simp
  let ?xs' = "xs[i := refreshed ff fs i (xs ! i)]"
  show ?case
  proof (cases "j = i")
    case True
    with Suc.prems i show ?thesis by (simp add: refreshLoop_step)
  next
    case False
    from Suc.hyps(2) have n: "n = length ?xs' - Suc i" by simp
    from False Suc.prems have "Suc i \<le> j" "j < length ?xs'"
      "fetchData ff fs j (?xs' ! j) = Pending" by simp_all
    from Suc.hyps(1) [OF n this] i show ?thesis
      by (simp add: refreshLoop_step)
  qed
qed

lemma id_h_refreshed: "id_h (refreshed ff fs i h) = id_h h"
  by (simp add: refreshed_def mergeBack_def split: outcome.splits option.splits)

text \<open>
  C3. Whenever every awaited fetch settles (with data, with \<open>null\<close>, or by throwing),
  \<open>refreshMarketPrices\<close> returns a list of the same length as its input, with the same
  ids at the same positions; and a holding whose fetch gave \<open>null\<close> or threw is returned
  unchanged, so its currentPrice, yesterdayPrice, priceDate and name are the prior ones.
\<close>

theorem refresh_keeps_length_order_ids:
  assumes "\<forall>i<length holdings. fetchData fetchFund fetchStock i (holdings ! i) \<noteq> Pending"
  shows "\<exists>updated. refreshMarketPrices fetchFund fetchStock holdings = Some updated
          \<and> length updated = length holdings
          \<and> map id_h updated = map id_h holdings
          \<and> (\<forall>i<length holdings.
                fetchData fetchFund fetchStock i (holdings ! i) = Resolved None
                \<or> fetchData fetchFund fetchStock i (holdings ! i) = Rejected
                \<longrightarrow> updated ! i = holdings ! i)"
proof -
  from refreshLoop_returns [of 0 holdings fetchFund fetchStock] assms
  obtain updated where u: "refreshLoop fetchFund fetchStock 0 holdings = Some updated"
    by auto
  from refreshLoop_result [OF u]
  have len: "length updated = length holdings"
    and nth: "\<And>j. j < length holdings \<Longrightarrow>
                updated ! j = refreshed fetchFund fetchStock j (holdings ! j)"
    by simp_all
  have ids: "map id_h updated = map id_h holdings"
    by (rule nth_equalityI) (simp_all add: len nth id_h_refreshed)
  have failed: "updated ! i = holdings ! i"
    if "i < length holdings"
      "fetchData fetchFund fetchStock i (holdings ! i) = Resolved None
       \<or> fetchData fetchFund fetchStock i (holdings ! i) = Rejected" for i
    using that nth [of i] by (auto simp: refreshed_def)
  from u len ids failed show ?thesis
    by (auto simp: refreshMarketPrices_def)
qed

theorem refresh_keeps_length_order_ids_witness:
  "fetchData (\<lambda>i. fetchFundData sampleParseFloat (Calls sampleQuote)) (\<lambda>i c. Rejected) 0
        ([sampleExisting, sampleFund] ! 0) = Rejected
   \<and> fetchData (\<lambda>i. fetchFundData sampleParseFloat (Calls sampleQuote)) (\<lambda>i c. Rejected)
        (Suc 0) ([sampleExisting, sampleFund] ! Suc 0) \<noteq> Pending
   \<and> (\<exists>updated.
        refreshMarketPrices (\<lambda>i. fetchFundData sampleParseFloat (Calls sampleQuote))
          (\<lambda>i c. Rejected) [sampleExisting, sampleFund] = Some updated
        \<and> length updated = 2 \<and> map id_h updated = [''h1'', ''h5'']
        \<and> updated ! 0 = sampleExisting)"
proof -
  let ?ff = "\<lambda>i::nat. fetchFundData sampleParseFloat (Calls sampleQuote)"
  let ?fs = "\<lambda>(i::nat) (c::string). Rejected"
  let ?hs = "[sampleExisting, sampleFund]"
  have f0: "fetchData ?ff ?fs 0 (?hs ! 0) = Rejected"
    by (simp add: fetchData_def sampleExisting_def)
  have f1: "fetchData ?ff ?fs (Suc 0) (?hs ! Suc 0) \<noteq> Pending"
    by (simp add: fetchData_def sampleFund_def fetchFundData_def jsonpgz_def sampleQuote_def
        Let_def)
  have settle: "\<forall>i<length ?hs. fetchData ?ff ?fs i (?hs ! i) \<noteq> Pending"
  proof (intro allI impI)
    fix i assume "i < length ?hs"
    then have "i = 0 \<or> i = Suc 0" by auto
    then show "fetchData ?ff ?fs i (?hs ! i) \<noteq> Pending"
    proof
      assume "i = 0"
      then show ?thesis using f0 by (simp only: outcome.distinct not_False_eq_True)
    next
      assume "i = Suc 0"
      then show ?thesis using f1 by (simp only: not_False_eq_True)
    qed
  qed
  from refresh_keeps_length_order_ids [OF settle] obtain updated where
    u: "refreshMarketPrices ?ff ?fs ?hs = Some updated"
    and l: "length updated = length ?hs" and m: "map id_h updated = map id_h ?hs"
    and un: "\<forall>i<length ?hs.
          fetchData ?ff ?fs i (?hs ! i) = Resolved None \<or> fetchData ?ff ?fs i (?hs ! i) = Rejected
          \<longrightarrow> updated ! i = ?hs ! i"
    by (elim exE conjE)
  have z: "updated ! 0 = ?hs ! 0"
  proof (rule un [rule_format, of 0])
    show "0 < length ?hs" by simp
    show "fetchData ?ff ?fs 0 (?hs ! 0) = Resolved None
      \<or> fetchData ?ff ?fs 0 (?hs ! 0) = Rejected"
      using f0 by (rule disjI2)
  qed
  have l2: "length updated = 2" using l by simp
  have m2: "map id_h updated = [''h1'', ''h5'']"
    using m by (simp add: sampleExisting_def sampleFund_def)
  have z2: "updated ! 0 = sampleExisting" using z by simp
  show ?thesis
  proof (intro conjI exI)
    show "fetchData ?ff ?fs 0 (?hs ! 0) = Rejected" by (fact f0)
    show "fetchData ?ff ?fs (Suc 0) (?hs ! Suc 0) \<noteq> Pending" by (fact f1)
    show "refreshMarketPrices ?ff ?fs ?hs = Some updated" by (fact u)
    show "length updated = 2" by (fact l2)
    show "map id_h updated = [''h1'', ''h5'']" by (fact m2)
    show "updated ! 0 = sampleExisting" by (fact z2)
  qed
qed

lemma refreshMarketPrices_single:
  "fetchData ff fs 0 h = Resolved (Some data) \<Longrightarrow>
   refreshMarketPrices ff fs [h] = Some [mergeBack h data]"
  by (simp add: refreshMarketPrices_def refreshLoop_step refreshLoop_done refreshed_def)

lemma currentPrice_mergeBack:
  "currentPrice (mergeBack h data) =
     (case truthyNumber (PartialHolding.currentPrice data) of
        Some c \<Rightarrow> c | None \<Rightarrow> currentPrice h)"
  by (simp add: mergeBack_def)

lemma refreshMarketPrices_nth:
  assumes "refreshMarketPrices ff fs holdings = Some updated" and "i < length holdings"
  shows "updated ! i = refreshed ff fs i (holdings ! i)"
  using refreshLoop_result [of ff fs 0 holdings updated] assms
  by (simp add: refreshMarketPrices_def)

text \<open>
  C8 (amended). In the list that \<open>refreshMarketPrices\<close> returns, a holding's currentPrice is
  the adapter's value whenever that value is a number other than 0, negative values
  included; it is the prior currentPrice when the adapter's value is 0, \<open>NaN\<close> or absent,
  and when the fetch gave no data or threw.
\<close>

theorem refresh_currentPrice_nonzero:
  assumes "refreshMarketPrices fetchFund fetchStock holdings = Some updated"
    and "i < length holdings"
  shows "(\<forall>data r. fetchData fetchFund fetchStock i (holdings ! i) = Resolved (Some data)
            \<and> PartialHolding.currentPrice data = Some (Num r) \<and> r \<noteq> 0
          \<longrightarrow> currentPrice (updated ! i) = r)
       \<and> (\<forall>data. fetchData fetchFund fetchStock i (holdings ! i) = Resolved (Some data)
            \<and> (PartialHolding.currentPrice data = Some (Num 0)
               \<or> PartialHolding.currentPrice data = Some NaN
               \<or> PartialHolding.currentPrice data = None)
          \<longrightarrow> currentPrice (updated ! i) = currentPrice (holdings ! i))
       \<and> (fetchData fetchFund fetchStock i (holdings ! i) = Resolved None
            \<or> fetchData fetchFund fetchStock i (holdings ! i) = Rejected
          \<longrightarrow> currentPrice (updated ! i) = currentPrice (holdings ! i))"
  unfolding refreshMarketPrices_nth [OF assms]
  by (auto simp: refreshed_def currentPrice_mergeBack)

theorem refresh_currentPrice_nonzero_witness:
  "refreshMarketPrices (\<lambda>i. fetchFundData sampleParseFloat (Calls sampleQuote))
     (\<lambda>i c. Rejected) [sampleFund] = Some [mergeBack sampleFund
        \<lparr>PartialHolding.name = Some ''Growth Fund'',
         PartialHolding.currentPrice = Some (Num 5),
         PartialHolding.yesterdayPrice = Some (Num 4),
         PartialHolding.priceDate = Some ''2024-05-10 15:00''\<rparr>]
   \<and> (0::nat) < length [sampleFund]
   \<and> currentPrice ([mergeBack sampleFund
        \<lparr>PartialHolding.name = Some ''Growth Fund'',
         PartialHolding.currentPrice = Some (Num 5),
         PartialHolding.yesterdayPrice = Some (Num 4),
         PartialHolding.priceDate = Some ''2024-05-10 15:00''\<rparr>] ! 0) = 5"
proof -
  let ?d = "\<lparr>PartialHolding.name = Some ''Growth Fund'',
         PartialHolding.currentPrice = Some (Num 5),
         PartialHolding.yesterdayPrice = Some (Num 4),
         PartialHolding.priceDate = Some ''2024-05-10 15:00''\<rparr>"
  let ?ff = "\<lambda>i::nat. fetchFundData sampleParseFloat (Calls sampleQuote)"
  let ?fs = "\<lambda>(i::nat) (c::string). Rejected"
  have f: "fetchData ?ff ?fs 0 ([sampleFund] ! 0) = Resolved (Some ?d)"
    by (simp add: fetchData_def sampleFund_def fetchFundData_def jsonpgz_def sampleQuote_def
        sampleParseFloat_def isNaN_def gt0_def Let_def)
  then have r: "refreshMarketPrices ?ff ?fs [sampleFund] = Some [mergeBack sampleFund ?d]"
    using refreshMarketPrices_single [of ?ff ?fs sampleFund ?d] by simp
  have l: "(0::nat) < length [sampleFund]" by simp
  from refresh_currentPrice_nonzero [OF r l] f
  have "currentPrice ([mergeBack sampleFund ?d] ! 0) = 5"
    by simp
  with r l show ?thesis by blast
qed

text \<open>
  C8 as stated fails on a negative value: the fund adapter passes on a negative net value
  when there is no estimate, and the synchronizer takes it in place of the prior price 3.
\<close>

theorem refresh_negative_price_counterexample:
  "map_option (map currentPrice)
     (refreshMarketPrices (\<lambda>i. fetchFundData sampleParseFloat (Calls sampleNegativeNav))
        (\<lambda>i c. Rejected) [sampleFund]) = Some [- 1]
   \<and> currentPrice sampleFund = 3"
proof -
  have "fetchData (\<lambda>i. fetchFundData sampleParseFloat (Calls sampleNegativeNav))
          (\<lambda>i c. Rejected) 0 sampleFund
        = Resolved (Some \<lparr>PartialHolding.name = Some ''Growth Fund'',
            PartialHolding.currentPrice = Some (Num (- 1)),
            PartialHolding.yesterdayPrice = Some (Num (- 1)),
            PartialHolding.priceDate = Some ''2024-05-09''\<rparr>)"
    by (simp add: fetchData_def sampleFund_def fetchFundData_def jsonpgz_def
        sampleNegativeNav_def sampleParseFloat_def isNaN_def gt0_def Let_def)
  from refreshMarketPrices_single [OF this] show ?thesis
    by (simp add: currentPrice_mergeBack) (simp add: sampleFund_def)
qed

text \<open>
  C2 at a fund record with an estimate of 5 and an empty net value, for a holding whose
  prior currentPrice is 3 and quantity 1000: the refreshed holding has currentPrice 5 and
  yesterdayPrice 3, the price before this refresh, and its day profit is 2000, not 0.
\<close>

theorem refresh_fallback_is_prior_price:
  "map_option (map (\<lambda>h. (currentPrice h, yesterdayPrice h, dayPL h)))
     (refreshMarketPrices (\<lambda>i. fetchFundData sampleParseFloat (Calls sampleEstimateOnly))
        (\<lambda>i c. Rejected) [sampleFund]) = Some [(5, Some 3, 2000)]"
proof -
  have "fetchData (\<lambda>i. fetchFundData sampleParseFloat (Calls sampleEstimateOnly))
          (\<lambda>i c. Rejected) 0 sampleFund
        = Resolved (Some \<lparr>PartialHolding.name = Some ''Growth Fund'',
            PartialHolding.currentPrice = Some (Num 5),
            PartialHolding.yesterdayPrice = Some (Num 0),
            PartialHolding.priceDate = Some ''2024-05-10 15:00''\<rparr>)"
    by (simp add: fetchData_def sampleFund_def fetchFundData_def jsonpgz_def
        sampleEstimateOnly_def sampleParseFloat_def isNaN_def gt0_def Let_def)
  from refreshMarketPrices_single [OF this] show ?thesis
    by (simp add: mergeBack_def dayPL_def sampleFund_def)
qed

section \<open>Fund quote adapter\<close>

lemma jsonpgz_Some:
  "fundcode data = code' \<Longrightarrow>
   jsonpgz parseFloat code' data =
     Some \<lparr>PartialHolding.name = Some (FundData.name data),
           PartialHolding.currentPrice =
             Some (case parseFloat (gsz data) of
                     Num e \<Rightarrow> (if e > 0 then Num e
                               else (case parseFloat (dwjz data) of NaN \<Rightarrow> Num 0 | Num n \<Rightarrow> Num n))
                   | NaN \<Rightarrow> (case parseFloat (dwjz data) of NaN \<Rightarrow> Num 0 | Num n \<Rightarrow> Num n)),
           PartialHolding.yesterdayPrice =
             Some (case parseFloat (dwjz data) of NaN \<Rightarrow> Num 0 | Num n \<Rightarrow> Num n),
           PartialHolding.priceDate =
             Some (case parseFloat (gsz data) of
                     Num e \<Rightarrow> (if e > 0 then gztime data else jzrq data)
                   | NaN \<Rightarrow> jzrq data)\<rparr>"
  by (simp add: jsonpgz_def Let_def isNaN_def gt0_def split: number.splits)

lemma jsonpgz_None: "fundcode data \<noteq> code' \<Longrightarrow> jsonpgz parseFloat code' data = None"
  by (simp add: jsonpgz_def)

text \<open>
  C9. For a record carrying the requested fund code the adapter resolves with a quote, and
  every quote it resolves with follows the policy: when \<open>gsz\<close> parses to a positive
  number, currentPrice is that number and priceDate is \<open>gztime\<close>; otherwise priceDate is
  \<open>jzrq\<close> and currentPrice is the parsed \<open>dwjz\<close>, or 0 when \<open>dwjz\<close> does not parse;
  yesterdayPrice is the parsed \<open>dwjz\<close> in every case, or 0 when it does not parse.
\<close>

theorem fund_quote_resolution:
  "(fundcode data = code' \<longrightarrow>
      (\<exists>q. jsonpgz parseFloat code' data = Some q
           \<and> fetchFundData parseFloat (Calls data) code' = Resolved (Some q)))
   \<and> (\<forall>q. fetchFundData parseFloat (Calls data) code' = Resolved (Some q) \<longrightarrow>
        (\<forall>e. parseFloat (gsz data) = Num e \<and> e > 0 \<longrightarrow>
              PartialHolding.currentPrice q = Some (Num e)
              \<and> PartialHolding.priceDate q = Some (gztime data))
        \<and> (\<not> (\<exists>e. parseFloat (gsz data) = Num e \<and> e > 0) \<longrightarrow>
              PartialHolding.priceDate q = Some (jzrq data)
              \<and> (\<forall>n. parseFloat (dwjz data) = Num n \<longrightarrow>
                     PartialHolding.currentPrice q = Some (Num n))
              \<and> (parseFloat (dwjz data) = NaN \<longrightarrow>
                     PartialHolding.currentPrice q = Some (Num 0)))
        \<and> (\<forall>n. parseFloat (dwjz data) = Num n \<longrightarrow>
               PartialHolding.yesterdayPrice q = Some (Num n))
        \<and> (parseFloat (dwjz data) = NaN \<longrightarrow>
               PartialHolding.yesterdayPrice q = Some (Num 0)))"
proof (cases "fundcode data = code'")
  case False
  then show ?thesis
    by (simp add: fetchFundData_def jsonpgz_None)
next
  case True
  show ?thesis
    by (cases "parseFloat (gsz data)"; cases "parseFloat (dwjz data)")
       (auto simp: fetchFundData_def jsonpgz_Some [OF True])
qed

theorem fund_quote_resolution_witness:
  "fundcode sampleQuote = ''000001''
   \<and> sampleParseFloat (gsz sampleQuote) = Num 5 \<and> (5::real) > 0
   \<and> sampleParseFloat (dwjz sampleQuote) = Num 4
   \<and> (\<exists>q. fetchFundData sampleParseFloat (Calls sampleQuote) ''000001'' = Resolved (Some q)
          \<and> PartialHolding.currentPrice q = Some (Num 5)
          \<and> PartialHolding.yesterdayPrice q = Some (Num 4)
          \<and> PartialHolding.priceDate q = Some ''2024-05-10 15:00'')"
proof -
  have c: "fundcode sampleQuote = ''000001''" by (simp add: sampleQuote_def)
  have e: "sampleParseFloat (gsz sampleQuote) = Num 5"
    and n: "sampleParseFloat (dwjz sampleQuote) = Num 4"
    by (simp_all add: sampleQuote_def sampleParseFloat_def)
  have t: "gztime sampleQuote = ''2024-05-10 15:00''" by (simp add: sampleQuote_def)
  note main = fund_quote_resolution [of sampleQuote "''000001''" sampleParseFloat]
  from main c obtain q where
    q: "fetchFundData sampleParseFloat (Calls sampleQuote) ''000001'' = Resolved (Some q)"
    by blast
  from main q e n have "PartialHolding.currentPrice q = Some (Num 5)"
    and "PartialHolding.priceDate q = Some (gztime sampleQuote)"
    and "PartialHolding.yesterdayPrice q = Some (Num 4)"
    by simp_all
  with q c e n t show ?thesis by simp
qed

section \<open>Profit sharing\<close>

lemma rate_le_iff:
  fixes c p t :: real
  assumes "0 < c"
  shows "p / c \<le> t \<longleftrightarrow> p \<le> c * t"
  using pos_divide_le_eq [OF assms, of p t] by (simp only: mult.commute)

lemma rate_gr_iff:
  fixes c p t :: real
  assumes "0 < c"
  shows "t < p / c \<longleftrightarrow> c * t < p"
  using pos_less_divide_eq [OF assms, of t p] by (simp only: mult.commute)

lemma calculation_profit:
  assumes c: "0 < c" and p: "0 \<le> p"
  shows "calculation c p =
     \<lparr>sharingAmount =
        (if p \<le> c * 0.03 then 0
         else if p \<le> c * 0.05 then (p - c * 0.03) * 0.20
         else (c * 0.05 - c * 0.03) * 0.20 + (p - c * 0.05) * 0.50),
      guaranteeAmount = 0\<rparr>"
proof -
  have nz: "c \<noteq> 0" "\<not> p < 0" using c p by simp_all
  show ?thesis
    unfolding calculation_def Let_def if_not_P [OF nz(1)] if_not_P [OF nz(2)]
      rate_le_iff [OF c] rate_gr_iff [OF c]
    by auto
qed

lemma sharingAmount_closed_form:
  assumes c: "0 < c"
  shows "sharingAmount (calculation c p)
         = 0.2 * max 0 (p - c * 0.03) + 0.3 * max 0 (p - c * 0.05)"
proof (cases "p < 0")
  case True
  then have "sharingAmount (calculation c p) = 0"
    using c by (simp add: calculation_def)
  moreover have "max 0 (p - c * 0.03) = 0" "max 0 (p - c * 0.05) = 0"
    using True c by (auto simp: max_def)
  ultimately show ?thesis by simp
next
  case False
  then have p: "0 \<le> p" by simp
  show ?thesis
    unfolding calculation_profit [OF c p]
    using c by (auto simp: max_def field_simps)
qed


text \<open>
  C7. For a positive totalCost: sharingAmount is 0 whenever totalProfitLoss / totalCost is
  at most 0.03; as a function of totalProfitLoss it is continuous everywhere; at the
  profit of exactly 3 percent and of exactly 5 percent its value is the one the formula of
  the tier above gives there; and it is non-decreasing in totalProfitLoss.
\<close>

theorem sharing_continuous_monotone:
  assumes "0 < totalCost"
  shows "(\<forall>p. p / totalCost \<le> 0.03 \<longrightarrow> sharingAmount (calculation totalCost p) = 0)
       \<and> continuous_on UNIV (\<lambda>p. sharingAmount (calculation totalCost p))
       \<and> sharingAmount (calculation totalCost (totalCost * 0.03))
           = (totalCost * 0.03 - totalCost * 0.03) * 0.20
       \<and> sharingAmount (calculation totalCost (totalCost * 0.05))
           = (totalCost * 0.05 - totalCost * 0.03) * 0.20
             + (totalCost * 0.05 - totalCost * 0.05) * 0.50
       \<and> (\<forall>p p'. p \<le> p' \<longrightarrow>
             sharingAmount (calculation totalCost p) \<le> sharingAmount (calculation totalCost p'))"
proof (intro conjI allI impI)
  fix p assume "p / totalCost \<le> 0.03"
  then have "p \<le> totalCost * 0.03"
    by (simp only: rate_le_iff [OF assms])
  then have "max 0 (p - totalCost * 0.03) = 0" "max 0 (p - totalCost * 0.05) = 0"
    using assms by (auto simp: max_def)
  then show "sharingAmount (calculation totalCost p) = 0"
    by (simp only: sharingAmount_closed_form [OF assms])
next
  have "continuous_on UNIV
          (\<lambda>p. 0.2 * max 0 (p - totalCost * 0.03) + 0.3 * max 0 (p - totalCost * 0.05))"
    by (intro continuous_intros)
  then show "continuous_on UNIV (\<lambda>p. sharingAmount (calculation totalCost p))"
    by (simp only: sharingAmount_closed_form [OF assms])
next
  show "sharingAmount (calculation totalCost (totalCost * 0.03))
           = (totalCost * 0.03 - totalCost * 0.03) * 0.20"
    using assms by (simp add: sharingAmount_closed_form [OF assms] max_def)
next
  show "sharingAmount (calculation totalCost (totalCost * 0.05))
           = (totalCost * 0.05 - totalCost * 0.03) * 0.20
             + (totalCost * 0.05 - totalCost * 0.05) * 0.50"
    using assms by (simp add: sharingAmount_closed_form [OF assms] max_def)
next
  fix p p' :: real assume "p \<le> p'"
  then have "max 0 (p - totalCost * 0.03) \<le> max 0 (p' - totalCost * 0.03)"
    and "max 0 (p - totalCost * 0.05) \<le> max 0 (p' - totalCost * 0.05)"
    by (auto simp: max_def)
  then have "0.2 * max 0 (p - totalCost * 0.03) + 0.3 * max 0 (p - totalCost * 0.05)
          \<le> 0.2 * max 0 (p' - totalCost * 0.03) + 0.3 * max 0 (p' - totalCost * 0.05)"
    by (intro add_mono mult_left_mono) simp_all
  then show "sharingAmount (calculation totalCost p) \<le> sharingAmount (calculation totalCost p')"
    by (simp only: sharingAmount_closed_form [OF assms])
qed

theorem sharing_continuous_monotone_witness:
  "(0::real) < 100000
   \<and> (2000::real) / 100000 \<le> 0.03 \<and> sharingAmount (calculation 100000 2000) = 0
   \<and> (4000::real) \<le> 8000
   \<and> sharingAmount (calculation 100000 4000) \<le> sharingAmount (calculation 100000 8000)"
proof -
  have c: "(0::real) < 100000" by simp
  have r: "(2000::real) / 100000 \<le> 0.03" by simp
  have le: "(4000::real) \<le> 8000" by simp
  note main = sharing_continuous_monotone [OF c]
  from main r have "sharingAmount (calculation 100000 2000) = 0" by blast
  moreover from main le
  have "sharingAmount (calculation 100000 4000) \<le> sharingAmount (calculation 100000 8000)"
    by blast
  ultimately show ?thesis using c r le by blast
qed

text \<open>
  C10. For all inputs sharingAmount and guaranteeAmount are non-negative and at least one
  of them is 0; guaranteeAmount is non-zero only if totalCost is non-zero and
  totalProfitLoss is negative; sharingAmount is non-zero only if totalProfitLoss is
  non-negative and the profit rate exceeds 0.03.
\<close>

theorem sharing_guarantee_exclusive:
  "let r = calculation totalCost totalProfitLoss in
     0 \<le> sharingAmount r \<and> 0 \<le> guaranteeAmount r
     \<and> (sharingAmount r = 0 \<or> guaranteeAmount r = 0)
     \<and> (guaranteeAmount r \<noteq> 0 \<longrightarrow> totalCost \<noteq> 0 \<and> totalProfitLoss < 0)
     \<and> (sharingAmount r \<noteq> 0 \<longrightarrow> 0 \<le> totalProfitLoss \<and> 0.03 < totalProfitLoss / totalCost)"
proof -
  consider "totalCost = 0" | "totalCost \<noteq> 0" "totalProfitLoss < 0"
    | "totalCost < 0" "0 \<le> totalProfitLoss" | "0 < totalCost" "0 \<le> totalProfitLoss"
    by linarith
  then show ?thesis
  proof cases
    case 1
    then show ?thesis by (simp add: calculation_def)
  next
    case 2
    then show ?thesis by (simp add: calculation_def)
  next
    case 3
    then have "totalProfitLoss / totalCost \<le> 0"
      by (simp add: divide_nonneg_neg)
    then have "totalProfitLoss / totalCost \<le> 0.03" by (rule order_trans) simp
    with 3 show ?thesis by (simp add: calculation_def Let_def)
  next
    case 4
    note c = 4(1) and p = 4(2)
    have g: "guaranteeAmount (calculation totalCost totalProfitLoss) = 0"
      by (simp add: calculation_profit [OF c p])
    have s0: "0 \<le> sharingAmount (calculation totalCost totalProfitLoss)"
      using c by (simp add: sharingAmount_closed_form [OF c])
    have s1: "totalCost * 0.03 < totalProfitLoss"
      if "sharingAmount (calculation totalCost totalProfitLoss) \<noteq> 0"
      using that c by (auto simp: calculation_profit [OF c p] split: if_splits)
    have "0.03 < totalProfitLoss / totalCost"
      if "sharingAmount (calculation totalCost totalProfitLoss) \<noteq> 0"
      using s1 [OF that] by (simp only: rate_gr_iff [OF c])
    with g s0 p show ?thesis
      by (simp only: Let_def) blast
  qed
qed

theorem sharing_guarantee_exclusive_witness:
  "guaranteeAmount (calculation 100000 (- 2500)) \<noteq> 0
   \<and> (100000::real) \<noteq> 0 \<and> (- 2500::real) < 0
   \<and> sharingAmount (calculation 100000 (- 2500)) = 0
   \<and> sharingAmount (calculation 100000 8000) \<noteq> 0
   \<and> (0::real) \<le> 8000 \<and> (0.03::real) < 8000 / 100000
   \<and> guaranteeAmount (calculation 100000 8000) = 0"
proof -
  have g: "guaranteeAmount (calculation 100000 (- 2500)) \<noteq> 0"
    by (simp add: calculation_def)
  have s: "sharingAmount (calculation 100000 8000) \<noteq> 0"
    by (simp add: calculation_def Let_def)
  from sharing_guarantee_exclusive [of 100000 "- 2500"] g
  have 1: "(100000::real) \<noteq> 0 \<and> (- 2500::real) < 0
           \<and> sharingAmount (calculation 100000 (- 2500)) = 0"
    by (simp only: Let_def) blast
  from sharing_guarantee_exclusive [of 100000 8000] s
  have 2: "(0::real) \<le> 8000 \<and> (0.03::real) < 8000 / 100000
           \<and> guaranteeAmount (calculation 100000 8000) = 0"
    by (simp only: Let_def) blast
  from g s 1 2 show ?thesis by blast
qed

end
